theory Spec2Isabelle
  imports Main
begin

section \<open>The benchmark catalog of asgi_bench/spec.py\<close>

text \<open>
  Python strings are \<^typ>\<open>string\<close>, tuples and lists are HOL lists, \<open>int | None\<close> is
  \<^typ>\<open>int option\<close>. The field names are those of the dataclasses; since several
  dataclasses share the names \<open>path\<close> and \<open>name\<close>, fields are always written qualified
  (\<open>Endpoint.path\<close>, \<open>TestSpec.path\<close>, ...).
\<close>

record Endpoint =
  path :: string
  name :: string
  exclude :: "string list"
  headers :: "(string \<times> string) list"

record TestCategory =
  name :: string
  endpoints :: "Endpoint list"
  frameworks :: "string list"

text \<open>The dataclass defaults: \<open>exclude\<close> and \<open>headers\<close> are empty lists, the category's
  \<open>frameworks\<close> is the tuple of all five frameworks.\<close>

definition mk_endpoint :: "string \<Rightarrow> string \<Rightarrow> Endpoint" where
  "mk_endpoint p n =
     \<lparr>Endpoint.path = p, Endpoint.name = n, Endpoint.exclude = [], Endpoint.headers = []\<rparr>"

definition all_frameworks :: "string list" where
  "all_frameworks = [''starlite'', ''starlette'', ''fastapi'', ''sanic'', ''blacksheep'']"

definition mk_category :: "string \<Rightarrow> Endpoint list \<Rightarrow> TestCategory" where
  "mk_category n es =
     \<lparr>TestCategory.name = n, TestCategory.endpoints = es,
      TestCategory.frameworks = all_frameworks\<rparr>"

definition TEST_CATEGORIES :: "TestCategory list" where
  "TEST_CATEGORIES =
    [mk_category ''plaintext''
       [mk_endpoint ''plaintext-100B'' ''plaintext 100 bytes'',
        mk_endpoint ''plaintext-1K'' ''plaintext 1 kB'',
        mk_endpoint ''plaintext-10K'' ''plaintext 10 kB'',
        mk_endpoint ''plaintext-100K'' ''plaintext 100 kB'',
        mk_endpoint ''plaintext-500K'' ''plaintext 500 kB'',
        mk_endpoint ''plaintext-1M'' ''plaintext 1 MB'',
        mk_endpoint ''plaintext-5M'' ''plaintext 5 MB''],
     mk_category ''json''
       [mk_endpoint ''json-1K'' ''json 1 kB'',
        mk_endpoint ''json-10K'' ''json 10 kB'',
        mk_endpoint ''json-100K'' ''json 100 kB'',
        mk_endpoint ''json-500K'' ''json 500 kB'',
        mk_endpoint ''json-1M'' ''json 1 MB'',
        mk_endpoint ''json-5M'' ''json 5 MB''],
     mk_category ''files''
       [mk_endpoint ''file-response-100B'' ''file response 100 bytes'',
        mk_endpoint ''file-response-1K'' ''file response 1 kB'',
        mk_endpoint ''file-response-10K'' ''file response 10 kB'',
        mk_endpoint ''file-response-100K'' ''file response 100 kB'',
        mk_endpoint ''file-response-500K'' ''file response 500 kB'',
        mk_endpoint ''file-response-1M'' ''file response 1 MB'',
        mk_endpoint ''file-response-5M'' ''file response 5 MB''],
     mk_category ''params''
       [mk_endpoint ''no-params'' ''no params'',
        mk_endpoint ''path-params/42'' ''path params'',
        mk_endpoint ''query-param?first=42'' ''query params'',
        mk_endpoint ''mixed-params/42?first=21'' ''mixed params''],
     mk_category ''dynamic-response''
       [mk_endpoint ''response-headers'' ''response headers'',
        mk_endpoint ''response-cookies'' ''response cookies''],
     (mk_category ''dependency-injection''
       [mk_endpoint ''dependencies-sync'' ''dependencies sync'',
        (mk_endpoint ''dependencies-async'' ''dependencies async'')
          \<lparr>Endpoint.exclude := [''sanic'', ''blacksheep'']\<rparr>,
        (mk_endpoint ''dependencies-mixed'' ''dependencies mixed'')
          \<lparr>Endpoint.exclude := [''sanic'', ''blacksheep'']\<rparr>])
       \<lparr>TestCategory.frameworks := [''starlite'', ''fastapi'', ''sanic'', ''blacksheep'']\<rparr>,
     (mk_category ''serialization''
       [mk_endpoint ''serialize-pydantic-50'' ''serialize pydantic, 50 objects'',
        mk_endpoint ''serialize-pydantic-100'' ''serialize pydantic, 100 objects'',
        mk_endpoint ''serialize-pydantic-500'' ''serialize pydantic, 500 objects'',
        mk_endpoint ''serialize-dataclasses-50'' ''serialize dataclasses, 50 objects'',
        mk_endpoint ''serialize-dataclasses-100'' ''serialize dataclasses, 100 objects'',
        mk_endpoint ''serialize-dataclasses-500'' ''serialize dataclasses, 500 objects''])
       \<lparr>TestCategory.frameworks := [''starlite'', ''fastapi'']\<rparr>]"

text \<open>\<open>CATEGORIES_BY_NAME = {c.name: c for c in TEST_CATEGORIES}\<close>: a dict comprehension
  stores the entries from left to right, a later one replacing an earlier one of the same
  key.\<close>

definition CATEGORIES_BY_NAME :: "string \<rightharpoonup> TestCategory" where
  "CATEGORIES_BY_NAME =
     foldl (\<lambda>m c. m(TestCategory.name c \<mapsto> c)) Map.empty TEST_CATEGORIES"

section \<open>The produced structures\<close>

text \<open>
  Modelled from the spec: the dataclasses \<open>TestSpec\<close> and \<open>FrameworkSpec\<close> are declared in
  asgi_bench/types.py; their fields here are the keyword arguments that \<open>make_spec\<close> passes
  to the two constructors, with the types of the values passed.

  A \<open>Path\<close> yielded by \<open>iterdir()\<close> is kept as its final component \<open>name\<close> and what
  \<open>is_file()\<close> does on it; the parent directory is the same for every entry.
  \<open>is_file()\<close> answers \<open>True\<close> or \<open>False\<close> (\<open>False\<close> also for an entry that has vanished),
  or raises the \<open>OSError\<close> of the underlying \<open>stat\<close> when the entry may not be examined
  (\<open>PermissionError\<close> for \<open>EACCES\<close>).
\<close>

datatype os_error = FileNotFoundError | NotADirectoryError | PermissionError

record Path =
  name :: string
  is_file :: "os_error + bool"

record TestSpec =
  path :: string
  endpoint_mode :: string
  benchmark_mode :: string
  category :: string
  name :: string
  headers :: "(string \<times> string) list"
  warmup_time :: "int option"
  time_limit :: "int option"
  request_limit :: "int option"
  rate_limit :: "int option"
  slug_name :: string
  is_supported :: bool

record FrameworkSpec =
  name :: string
  version :: "string option"
  path :: Path
  tests :: "TestSpec list"

section \<open>String and value helpers of Python\<close>

text \<open>\<open>s.split(sep, maxsplit)\<close> for a one-character separator; \<open>None\<close> is the absent
  \<open>maxsplit\<close> (no limit). The result always has at least one element.\<close>

fun str_split :: "char \<Rightarrow> nat option \<Rightarrow> string \<Rightarrow> string list" where
  "str_split sep m [] = [[]]"
| "str_split sep m (c # cs) =
     (if c = sep \<and> m \<noteq> Some 0
      then [] # str_split sep (map_option (\<lambda>k. k - 1) m) cs
      else (case str_split sep m cs of
              [] \<Rightarrow> [[c]]
            | h # t \<Rightarrow> (c # h) # t))"

definition endswith :: "string \<Rightarrow> string \<Rightarrow> bool" where
  "endswith s suf \<longleftrightarrow> length suf \<le> length s \<and> drop (length s - length suf) s = suf"

definition removesuffix :: "string \<Rightarrow> string \<Rightarrow> string" where
  "removesuffix s suf =
     (if suf \<noteq> [] \<and> endswith s suf then take (length s - length suf) s else s)"

text \<open>\<open>x or d\<close> for \<open>x : int | None\<close> and an integer \<open>d\<close>: \<open>None\<close> and \<open>0\<close> are falsy.\<close>

definition int_or :: "int option \<Rightarrow> int \<Rightarrow> int" where
  "int_or x d = (case x of None \<Rightarrow> d | Some v \<Rightarrow> if v = 0 then d else v)"

text \<open>An argument that is either one string or a tuple of strings, and the
  normalisation \<open>if isinstance(a, str): a = (a,)\<close>.\<close>

datatype str_or_tuple = Str string | Tuple "string list"

fun as_tuple :: "str_or_tuple \<Rightarrow> string list" where
  "as_tuple (Str s) = [s]"
| "as_tuple (Tuple xs) = xs"

section \<open>make_spec\<close>

text \<open>Lines 131-135: the loop filling the \<open>defaultdict(list)\<close>. \<open>name, *parts\<close> unpacks the
  split; \<open>requested_frameworks[name].append(version)\<close> creates the key with an empty list
  when it is new.\<close>

definition parse_framework :: "string \<Rightarrow> string \<times> string option" where
  "parse_framework framework =
     (let pieces = str_split CHR ''@'' (Some 1) framework;
          name = hd pieces;
          parts = tl pieces;
          version = (if parts \<noteq> [] then Some (hd parts) else None)
      in (name, version))"

definition request :: "(string \<rightharpoonup> string option list) \<Rightarrow> string \<Rightarrow> (string \<rightharpoonup> string option list)" where
  "request m framework =
     (let (name, version) = parse_framework framework
      in m(name \<mapsto> (case m name of None \<Rightarrow> [] | Some vs \<Rightarrow> vs) @ [version]))"

definition requested_frameworks :: "string list \<Rightarrow> (string \<rightharpoonup> string option list)" where
  "requested_frameworks = (\<lambda>frameworks. foldl request Map.empty frameworks)"

text \<open>Line 128.\<close>

definition selected_categories :: "string list \<Rightarrow> TestCategory list" where
  "selected_categories = (\<lambda>categories.
     filter (\<lambda>c. TestCategory.name c \<in> set categories) TEST_CATEGORIES)"

text \<open>Lines 144-157: one \<open>TestSpec\<close>. The conditional expression binds weaker than
  \<open>or\<close>: \<open>a or b if c else None\<close> is \<open>(a or b) if c else None\<close>.\<close>

definition test_spec ::
  "string \<Rightarrow> int option \<Rightarrow> int option \<Rightarrow> int option \<Rightarrow> int option \<Rightarrow>
   string \<Rightarrow> string \<Rightarrow> TestCategory \<Rightarrow> Endpoint \<Rightarrow> TestSpec" where
  "test_spec = (\<lambda>framework_name warmup_time time_limit request_limit rate_limit
                  benchmark_mode endpoint_mode category endpoint.
     \<lparr>TestSpec.path = ''/'' @ endpoint_mode @ ''-'' @ Endpoint.path endpoint,
      TestSpec.endpoint_mode = endpoint_mode,
      TestSpec.benchmark_mode = benchmark_mode,
      TestSpec.category = TestCategory.name category,
      TestSpec.name = Endpoint.name endpoint,
      TestSpec.headers = Endpoint.headers endpoint,
      TestSpec.warmup_time = warmup_time,
      TestSpec.time_limit =
        (if benchmark_mode = ''rps'' then Some (int_or time_limit 15) else None),
      TestSpec.request_limit =
        (if benchmark_mode = ''latency'' then Some (int_or request_limit 1000) else None),
      TestSpec.rate_limit =
        (if benchmark_mode = ''latency'' then Some (int_or rate_limit 20) else None),
      TestSpec.slug_name =
        endpoint_mode @ ''-'' @ hd (str_split CHR ''?'' None (Endpoint.path endpoint)),
      TestSpec.is_supported =
        (framework_name \<in> set (TestCategory.frameworks category)
         \<and> framework_name \<notin> set (Endpoint.exclude endpoint))\<rparr>)"

text \<open>Lines 143-162: the list comprehension; each \<open>for\<close> clause is one
  \<open>concat (map ...)\<close>, the first clause outermost.\<close>

definition test_specs ::
  "string \<Rightarrow> int option \<Rightarrow> int option \<Rightarrow> int option \<Rightarrow> int option \<Rightarrow>
   string list \<Rightarrow> string list \<Rightarrow> TestCategory list \<Rightarrow> TestSpec list" where
  "test_specs = (\<lambda>framework_name warmup_time time_limit request_limit rate_limit
                   benchmark_modes endpoint_modes selected.
     concat (map (\<lambda>benchmark_mode.
       concat (map (\<lambda>endpoint_mode.
         concat (map (\<lambda>category.
           map (\<lambda>endpoint.
                  test_spec framework_name warmup_time time_limit request_limit rate_limit
                    benchmark_mode endpoint_mode category endpoint)
               (TestCategory.endpoints category))
           selected))
         endpoint_modes))
       benchmark_modes))"

text \<open>Lines 142-170: the inner loop appends one \<open>FrameworkSpec\<close> per requested version,
  building the test list anew each time.\<close>

fun append_versions ::
  "(string \<Rightarrow> TestSpec list) \<Rightarrow> Path \<Rightarrow> string \<Rightarrow>
   FrameworkSpec list \<Rightarrow> string option list \<Rightarrow> FrameworkSpec list" where
  "append_versions mk p framework_name framework_specs [] = framework_specs"
| "append_versions mk p framework_name framework_specs (requested_version # vs) =
     (let test_specs = mk framework_name
      in append_versions mk p framework_name
           (framework_specs @
              [\<lparr>FrameworkSpec.name = framework_name,
                FrameworkSpec.version = requested_version,
                FrameworkSpec.path = p,
                FrameworkSpec.tests = test_specs\<rparr>])
           vs)"

text \<open>Lines 137-170: the loop over the directory entries, in the order \<open>iterdir()\<close> yields
  them. \<open>path.is_file()\<close> is evaluated first for every entry, and an \<open>OSError\<close> it raises
  leaves \<open>make_spec\<close>; \<open>continue\<close> leaves \<open>framework_specs\<close> as it is.\<close>

fun scan_frameworks ::
  "(string \<Rightarrow> TestSpec list) \<Rightarrow> (string \<rightharpoonup> string option list) \<Rightarrow>
   FrameworkSpec list \<Rightarrow> Path list \<Rightarrow> os_error + FrameworkSpec list" where
  "scan_frameworks mk requested framework_specs [] = Inr framework_specs"
| "scan_frameworks mk requested framework_specs (p # ps) =
     (case Path.is_file p of
        Inl e \<Rightarrow> Inl e
      | Inr file \<Rightarrow>
          if file \<and> endswith (Path.name p) ''_app.py''
          then (let framework_name = removesuffix (Path.name p) ''_app.py''
                in if requested framework_name = None
                   then scan_frameworks mk requested framework_specs ps
                   else scan_frameworks mk requested
                          (append_versions mk p framework_name framework_specs
                             (case requested framework_name of None \<Rightarrow> [] | Some vs \<Rightarrow> vs))
                          ps)
          else scan_frameworks mk requested framework_specs ps)"

text \<open>\<open>(Path.cwd() / "frameworks").iterdir()\<close> either yields the entries of the directory
  or raises an \<open>OSError\<close> (the directory is missing, is not a directory, or may not be
  read), before any entry is looked at. The first argument is what the directory listing
  gives; the others are the keyword arguments in the order of the signature. Lines
  121-135 raise nothing.\<close>

definition make_spec ::
  "os_error + Path list \<Rightarrow> string list \<Rightarrow> str_or_tuple \<Rightarrow> str_or_tuple \<Rightarrow>
   int option \<Rightarrow> int option \<Rightarrow> int option \<Rightarrow> int option \<Rightarrow> str_or_tuple \<Rightarrow>
   os_error + FrameworkSpec list" where
  "make_spec = (\<lambda>frameworks_dir frameworks endpoint_modes categories
                  warmup_time time_limit request_limit rate_limit benchmark_modes.
      let endpoint_modes = as_tuple endpoint_modes;
          categories = as_tuple categories;
          benchmark_modes = as_tuple benchmark_modes;
          selected = selected_categories categories;
          requested = requested_frameworks frameworks
      in case frameworks_dir of
           Inl e \<Rightarrow> Inl e
         | Inr paths \<Rightarrow>
             scan_frameworks
               (\<lambda>framework_name.
                  test_specs framework_name warmup_time time_limit request_limit
                    rate_limit benchmark_modes endpoint_modes selected)
               requested [] paths)"

section \<open>Notions used in the statements\<close>

text \<open>A listing all of whose entries \<open>is_file()\<close> answers for.\<close>

definition readable :: "Path list \<Rightarrow> bool" where
  "readable paths \<longleftrightarrow> list_all (\<lambda>p. \<not> isl (Path.is_file p)) paths"

text \<open>The test of line 138, when it answers \<open>True\<close>, and the name of line 139.\<close>

definition is_adapter :: "Path \<Rightarrow> bool" where
  "is_adapter p \<longleftrightarrow> Path.is_file p = Inr True \<and> endswith (Path.name p) ''_app.py''"

definition adapter_name :: "Path \<Rightarrow> string" where
  "adapter_name p = removesuffix (Path.name p) ''_app.py''"

text \<open>The versions requested for one framework name, in the order of the request: the
  second components of the parsed strings whose first component is the name.\<close>

definition requested_versions :: "string \<Rightarrow> string list \<Rightarrow> string option list" where
  "requested_versions n fws = map snd (filter (\<lambda>nv. fst nv = n) (map parse_framework fws))"

text \<open>The \<open>FrameworkSpec\<close> of lines 164-169, and all of them that one directory entry
  contributes.\<close>

definition framework_spec :: "(string \<Rightarrow> TestSpec list) \<Rightarrow> Path \<Rightarrow> string \<Rightarrow> string option \<Rightarrow> FrameworkSpec" where
  "framework_spec mk p n v =
     \<lparr>FrameworkSpec.name = n, FrameworkSpec.version = v, FrameworkSpec.path = p,
      FrameworkSpec.tests = mk n\<rparr>"

definition specs_of_path ::
  "(string \<Rightarrow> TestSpec list) \<Rightarrow> string list \<Rightarrow> Path \<Rightarrow> FrameworkSpec list" where
  "specs_of_path mk fws p =
     (if is_adapter p
      then map (framework_spec mk p (adapter_name p)) (requested_versions (adapter_name p) fws)
      else [])"

text \<open>The (category, endpoint) pairs of a list of categories: categories in the order of
  the list, the endpoints of each in its declared order.\<close>

definition category_endpoint_pairs :: "TestCategory list \<Rightarrow> (TestCategory \<times> Endpoint) list" where
  "category_endpoint_pairs cs =
     concat (map (\<lambda>c. map (Pair c) (TestCategory.endpoints c)) cs)"

text \<open>The spec's reading of the slug: the request path without its leading \<open>/\<close> and
  without the query string, that is, cut before the first \<open>?\<close>.\<close>

definition slug_of_path :: "string \<Rightarrow> string" where
  "slug_of_path p = takeWhile (\<lambda>c. c \<noteq> CHR ''?'') (drop 1 p)"

text \<open>Projections of a result, for stating concrete runs.\<close>

definition time_limits :: "os_error + FrameworkSpec list \<Rightarrow> os_error + int option list list" where
  "time_limits = map_sum id (map (map TestSpec.time_limit \<circ> FrameworkSpec.tests))"

section \<open>Example values\<close>

text \<open>A directory entry for the adapter file of sanic, and a \<open>TestSpec\<close> written out
  field by field (no headers, no warm-up time).\<close>

definition sanic_app :: Path where
  "sanic_app = \<lparr>Path.name = ''sanic_app.py'', Path.is_file = Inr True\<rparr>"

abbreviation ts ::
  "string \<Rightarrow> string \<Rightarrow> string \<Rightarrow> string \<Rightarrow> string \<Rightarrow>
   int option \<Rightarrow> int option \<Rightarrow> int option \<Rightarrow> string \<Rightarrow> bool \<Rightarrow> TestSpec" where
  "ts p em bm cat n tlim rlim rate slug ok \<equiv>
     \<lparr>TestSpec.path = p, TestSpec.endpoint_mode = em, TestSpec.benchmark_mode = bm,
      TestSpec.category = cat, TestSpec.name = n, TestSpec.headers = [],
      TestSpec.warmup_time = None, TestSpec.time_limit = tlim, TestSpec.request_limit = rlim,
      TestSpec.rate_limit = rate, TestSpec.slug_name = slug, TestSpec.is_supported = ok\<rparr>"

abbreviation zero_fs :: FrameworkSpec where
  "zero_fs \<equiv>
     \<lparr>FrameworkSpec.name = ''sanic'', FrameworkSpec.version = None,
      FrameworkSpec.path = sanic_app,
      FrameworkSpec.tests =
        [ts ''/sync-response-headers'' ''sync'' ''rps'' ''dynamic-response'' ''response headers''
            (Some 15) None None ''sync-response-headers'' True,
         ts ''/sync-response-cookies'' ''sync'' ''rps'' ''dynamic-response'' ''response cookies''
            (Some 15) None None ''sync-response-cookies'' True,
         ts ''/sync-response-headers'' ''sync'' ''latency'' ''dynamic-response'' ''response headers''
            None (Some 1000) (Some 20) ''sync-response-headers'' True,
         ts ''/sync-response-cookies'' ''sync'' ''latency'' ''dynamic-response'' ''response cookies''
            None (Some 1000) (Some 20) ''sync-response-cookies'' True]\<rparr>"

definition starlite_app :: Path where
  "starlite_app = \<lparr>Path.name = ''starlite_app.py'', Path.is_file = Inr True\<rparr>"

abbreviation di_tests :: "bool \<Rightarrow> TestSpec list" where
  "di_tests ok \<equiv>
     [ts ''/sync-dependencies-sync'' ''sync'' ''rps'' ''dependency-injection'' ''dependencies sync''
         (Some 15) None None ''sync-dependencies-sync'' True,
      ts ''/sync-dependencies-async'' ''sync'' ''rps'' ''dependency-injection'' ''dependencies async''
         (Some 15) None None ''sync-dependencies-async'' ok,
      ts ''/sync-dependencies-mixed'' ''sync'' ''rps'' ''dependency-injection'' ''dependencies mixed''
         (Some 15) None None ''sync-dependencies-mixed'' ok]"

abbreviation di_sanic_fs :: FrameworkSpec where
  "di_sanic_fs \<equiv>
     \<lparr>FrameworkSpec.name = ''sanic'', FrameworkSpec.version = None,
      FrameworkSpec.path = sanic_app, FrameworkSpec.tests = di_tests False\<rparr>"

abbreviation di_starlite_fs :: FrameworkSpec where
  "di_starlite_fs \<equiv>
     \<lparr>FrameworkSpec.name = ''starlite'', FrameworkSpec.version = None,
      FrameworkSpec.path = starlite_app, FrameworkSpec.tests = di_tests True\<rparr>"

abbreviation override_fs :: FrameworkSpec where
  "override_fs \<equiv>
     \<lparr>FrameworkSpec.name = ''sanic'', FrameworkSpec.version = None,
      FrameworkSpec.path = sanic_app,
      FrameworkSpec.tests =
        [ts ''/sync-response-headers'' ''sync'' ''rps'' ''dynamic-response'' ''response headers''
            (Some 30) None None ''sync-response-headers'' True,
         ts ''/sync-response-cookies'' ''sync'' ''rps'' ''dynamic-response'' ''response cookies''
            (Some 30) None None ''sync-response-cookies'' True,
         ts ''/sync-response-headers'' ''sync'' ''latency'' ''dynamic-response'' ''response headers''
            None (Some 5) (Some 7) ''sync-response-headers'' True,
         ts ''/sync-response-cookies'' ''sync'' ''latency'' ''dynamic-response'' ''response cookies''
            None (Some 5) (Some 7) ''sync-response-cookies'' True]\<rparr>"

abbreviation params_fs :: FrameworkSpec where
  "params_fs \<equiv>
     \<lparr>FrameworkSpec.name = ''sanic'', FrameworkSpec.version = None,
      FrameworkSpec.path = sanic_app,
      FrameworkSpec.tests =
        [ts ''/sync-no-params'' ''sync'' ''rps'' ''params'' ''no params''
            (Some 15) None None ''sync-no-params'' True,
         ts ''/sync-path-params/42'' ''sync'' ''rps'' ''params'' ''path params''
            (Some 15) None None ''sync-path-params/42'' True,
         ts ''/sync-query-param?first=42'' ''sync'' ''rps'' ''params'' ''query params''
            (Some 15) None None ''sync-query-param'' True,
         ts ''/sync-mixed-params/42?first=21'' ''sync'' ''rps'' ''params'' ''mixed params''
            (Some 15) None None ''sync-mixed-params/42'' True]\<rparr>"

definition readme :: Path where
  "readme = \<lparr>Path.name = ''README.md'', Path.is_file = Inr True\<rparr>"

text \<open>An entry that \<open>is_file()\<close> may not examine.\<close>

definition locked_app :: Path where
  "locked_app = \<lparr>Path.name = ''sanic_app.py'', Path.is_file = Inl PermissionError\<rparr>"

abbreviation bare_fs :: "string \<Rightarrow> string option \<Rightarrow> Path \<Rightarrow> FrameworkSpec" where
  "bare_fs n v p \<equiv>
     \<lparr>FrameworkSpec.name = n, FrameworkSpec.version = v, FrameworkSpec.path = p,
      FrameworkSpec.tests = []\<rparr>"

abbreviation version_fs :: "string option \<Rightarrow> FrameworkSpec" where
  "version_fs v \<equiv>
     \<lparr>FrameworkSpec.name = ''sanic'', FrameworkSpec.version = v,
      FrameworkSpec.path = sanic_app,
      FrameworkSpec.tests =
        [ts ''/sync-response-headers'' ''sync'' ''rps'' ''dynamic-response'' ''response headers''
            (Some 15) None None ''sync-response-headers'' True,
         ts ''/sync-response-cookies'' ''sync'' ''rps'' ''dynamic-response'' ''response cookies''
            (Some 15) None None ''sync-response-cookies'' True]\<rparr>"

abbreviation cross_fs :: FrameworkSpec where
  "cross_fs \<equiv>
     \<lparr>FrameworkSpec.name = ''sanic'', FrameworkSpec.version = None,
      FrameworkSpec.path = sanic_app,
      FrameworkSpec.tests =
        [ts ''/sync-response-headers'' ''sync'' ''rps'' ''dynamic-response'' ''response headers''
            (Some 15) None None ''sync-response-headers'' True,
         ts ''/sync-response-cookies'' ''sync'' ''rps'' ''dynamic-response'' ''response cookies''
            (Some 15) None None ''sync-response-cookies'' True,
         ts ''/sync-dependencies-sync'' ''sync'' ''rps'' ''dependency-injection'' ''dependencies sync''
            (Some 15) None None ''sync-dependencies-sync'' True,
         ts ''/sync-dependencies-async'' ''sync'' ''rps'' ''dependency-injection'' ''dependencies async''
            (Some 15) None None ''sync-dependencies-async'' False,
         ts ''/sync-dependencies-mixed'' ''sync'' ''rps'' ''dependency-injection'' ''dependencies mixed''
            (Some 15) None None ''sync-dependencies-mixed'' False,
         ts ''/async-response-headers'' ''async'' ''rps'' ''dynamic-response'' ''response headers''
            (Some 15) None None ''async-response-headers'' True,
         ts ''/async-response-cookies'' ''async'' ''rps'' ''dynamic-response'' ''response cookies''
            (Some 15) None None ''async-response-cookies'' True,
         ts ''/async-dependencies-sync'' ''async'' ''rps'' ''dependency-injection'' ''dependencies sync''
            (Some 15) None None ''async-dependencies-sync'' True,
         ts ''/async-dependencies-async'' ''async'' ''rps'' ''dependency-injection'' ''dependencies async''
            (Some 15) None None ''async-dependencies-async'' False,
         ts ''/async-dependencies-mixed'' ''async'' ''rps'' ''dependency-injection'' ''dependencies mixed''
            (Some 15) None None ''async-dependencies-mixed'' False,
         ts ''/sync-response-headers'' ''sync'' ''latency'' ''dynamic-response'' ''response headers''
            None (Some 1000) (Some 20) ''sync-response-headers'' True,
         ts ''/sync-response-cookies'' ''sync'' ''latency'' ''dynamic-response'' ''response cookies''
            None (Some 1000) (Some 20) ''sync-response-cookies'' True,
         ts ''/sync-dependencies-sync'' ''sync'' ''latency'' ''dependency-injection'' ''dependencies sync''
            None (Some 1000) (Some 20) ''sync-dependencies-sync'' True,
         ts ''/sync-dependencies-async'' ''sync'' ''latency'' ''dependency-injection'' ''dependencies async''
            None (Some 1000) (Some 20) ''sync-dependencies-async'' False,
         ts ''/sync-dependencies-mixed'' ''sync'' ''latency'' ''dependency-injection'' ''dependencies mixed''
            None (Some 1000) (Some 20) ''sync-dependencies-mixed'' False,
         ts ''/async-response-headers'' ''async'' ''latency'' ''dynamic-response'' ''response headers''
            None (Some 1000) (Some 20) ''async-response-headers'' True,
         ts ''/async-response-cookies'' ''async'' ''latency'' ''dynamic-response'' ''response cookies''
            None (Some 1000) (Some 20) ''async-response-cookies'' True,
         ts ''/async-dependencies-sync'' ''async'' ''latency'' ''dependency-injection'' ''dependencies sync''
            None (Some 1000) (Some 20) ''async-dependencies-sync'' True,
         ts ''/async-dependencies-async'' ''async'' ''latency'' ''dependency-injection'' ''dependencies async''
            None (Some 1000) (Some 20) ''async-dependencies-async'' False,
         ts ''/async-dependencies-mixed'' ''async'' ''latency'' ''dependency-injection'' ''dependencies mixed''
            None (Some 1000) (Some 20) ''async-dependencies-mixed'' False]\<rparr>"

section \<open>The loops in closed form\<close>

lemma str_split_nonempty: "str_split sep m s \<noteq> []"
  by (induction s arbitrary: m) (auto split: list.splits)

lemma str_split_zero: "str_split sep (Some 0) s = [s]"
  by (induction s) auto

lemma hd_str_split: "m \<noteq> Some 0 \<Longrightarrow> hd (str_split sep m s) = takeWhile (\<lambda>c. c \<noteq> sep) s"
  by (induction s) (auto split: list.splits simp: str_split_nonempty)

lemma str_split_one:
  "str_split sep (Some (Suc 0)) s =
     (if sep \<in> set s then [takeWhile (\<lambda>c. c \<noteq> sep) s, tl (dropWhile (\<lambda>c. c \<noteq> sep) s)]
      else [s])"
  by (induction s) (auto simp: str_split_zero)

lemma parse_framework_eq:
  "parse_framework f =
     (takeWhile (\<lambda>c. c \<noteq> CHR ''@'') f,
      if CHR ''@'' \<in> set f then Some (tl (dropWhile (\<lambda>c. c \<noteq> CHR ''@'') f)) else None)"
proof (cases "CHR ''@'' \<in> set f")
  case True
  then show ?thesis by (simp add: parse_framework_def str_split_one Let_def)
next
  case False
  then have tw: "takeWhile (\<lambda>c. c \<noteq> CHR ''@'') f = f"
    by auto
  show ?thesis by (simp add: parse_framework_def str_split_one Let_def False tw)
qed

lemma foldl_request:
  "foldl request m fws n =
     (case m n of
        None \<Rightarrow> (if requested_versions n fws = [] then None else Some (requested_versions n fws))
      | Some ws \<Rightarrow> Some (ws @ requested_versions n fws))"
proof (induction fws arbitrary: m)
  case Nil
  then show ?case by (simp add: requested_versions_def split: option.splits)
next
  case (Cons f fws)
  obtain a v where p: "parse_framework f = (a, v)" by (cases "parse_framework f")
  have r: "request m f = m(a \<mapsto> (case m a of None \<Rightarrow> [] | Some vs \<Rightarrow> vs) @ [v])"
    by (simp add: request_def p)
  have "foldl request m (f # fws) n = foldl request (request m f) fws n" by simp
  also have "\<dots> = (case request m f n of
        None \<Rightarrow> (if requested_versions n fws = [] then None else Some (requested_versions n fws))
      | Some ws \<Rightarrow> Some (ws @ requested_versions n fws))"
    by (rule Cons.IH)
  finally show ?case
    by (simp add: r p requested_versions_def split: option.splits)
qed

lemma requested_frameworks_eq:
  "requested_frameworks fws n =
     (if requested_versions n fws = [] then None else Some (requested_versions n fws))"
  by (simp add: requested_frameworks_def foldl_request)

lemma append_versions_eq:
  "append_versions mk p n acc vs = acc @ map (framework_spec mk p n) vs"
  by (induction vs arbitrary: acc) (simp_all add: framework_spec_def Let_def)

lemma scan_frameworks_grouped:
  assumes req: "\<And>n. requested n =
     (if requested_versions n fws = [] then None else Some (requested_versions n fws))"
  shows "readable ps \<Longrightarrow>
         scan_frameworks mk requested acc ps = Inr (acc @ concat (map (specs_of_path mk fws) ps))"
proof (induction ps arbitrary: acc)
  case Nil
  then show ?case by simp
next
  case (Cons p ps)
  from Cons.prems obtain b where b: "Path.is_file p = Inr b" and r: "readable ps"
    by (cases "Path.is_file p") (simp_all add: readable_def)
  have "scan_frameworks mk requested acc (p # ps)
          = scan_frameworks mk requested (acc @ specs_of_path mk fws p) ps"
    by (simp add: b req specs_of_path_def is_adapter_def adapter_name_def Let_def
          append_versions_eq)
  also have "\<dots> = Inr ((acc @ specs_of_path mk fws p) @ concat (map (specs_of_path mk fws) ps))"
    by (rule Cons.IH [OF r])
  finally show ?case by simp
qed

lemma scan_frameworks_eq:
  "readable ps \<Longrightarrow>
   scan_frameworks mk (requested_frameworks fws) acc ps
     = Inr (acc @ concat (map (specs_of_path mk fws) ps))"
  by (rule scan_frameworks_grouped) (rule requested_frameworks_eq)

lemma scan_frameworks_readable:
  "scan_frameworks mk requested acc ps = Inr r \<Longrightarrow> readable ps"
proof (induction ps arbitrary: acc)
  case Nil
  then show ?case by (simp add: readable_def)
next
  case (Cons p ps)
  from Cons.prems obtain b where b: "Path.is_file p = Inr b"
    by (cases "Path.is_file p") simp_all
  from Cons.prems obtain acc' where "scan_frameworks mk requested acc' ps = Inr r"
    by (auto simp: b Let_def split: if_splits)
  then have "readable ps" by (rule Cons.IH)
  with b show ?case by (simp add: readable_def)
qed

lemma scan_frameworks_unreadable:
  "\<not> readable ps \<Longrightarrow> \<exists>e. scan_frameworks mk requested acc ps = Inl e"
  using scan_frameworks_readable [of mk requested acc ps]
  by (cases "scan_frameworks mk requested acc ps") auto

lemma make_spec_Inr:
  "readable paths \<Longrightarrow>
   make_spec (Inr paths) fws ems cats wt tlim rlim rate bms =
     Inr (concat (map (specs_of_path
            (\<lambda>n. test_specs n wt tlim rlim rate (as_tuple bms) (as_tuple ems)
                   (selected_categories (as_tuple cats))) fws) paths))"
  by (simp add: make_spec_def Let_def scan_frameworks_eq)

lemma make_spec_Inl: "make_spec (Inl e) fws ems cats wt tlim rlim rate bms = Inl e"
  by (simp add: make_spec_def Let_def)

lemma make_spec_returns:
  assumes "make_spec d fws ems cats wt tlim rlim rate bms = Inr r"
  shows "\<exists>paths. d = Inr paths \<and> readable paths \<and>
           r = concat (map (specs_of_path
                 (\<lambda>n. test_specs n wt tlim rlim rate (as_tuple bms) (as_tuple ems)
                        (selected_categories (as_tuple cats))) fws) paths)"
proof (cases d)
  case (Inl e)
  with assms show ?thesis by (simp add: make_spec_Inl)
next
  case (Inr paths)
  with assms have "readable paths"
    by (auto simp: make_spec_def Let_def dest: scan_frameworks_readable)
  with assms Inr show ?thesis by (simp add: make_spec_Inr)
qed

lemma test_specs_mem:
  "t \<in> set (test_specs n wt tlim rlim rate bs es sel) \<longleftrightarrow>
     (\<exists>bm\<in>set bs. \<exists>em\<in>set es. \<exists>c\<in>set sel. \<exists>e\<in>set (TestCategory.endpoints c).
        t = test_spec n wt tlim rlim rate bm em c e)"
  by (auto simp: test_specs_def)

section \<open>What make_spec produces\<close>

lemma produced_tests:
  assumes "make_spec d fws ems cats wt tlim rlim rate bms = Inr r" and "fs \<in> set r"
  shows "FrameworkSpec.tests fs =
           test_specs (FrameworkSpec.name fs) wt tlim rlim rate (as_tuple bms) (as_tuple ems)
             (selected_categories (as_tuple cats))"
proof -
  from make_spec_returns [OF assms(1)] assms(2) obtain p where
    "fs \<in> set (specs_of_path
        (\<lambda>n. test_specs n wt tlim rlim rate (as_tuple bms) (as_tuple ems)
               (selected_categories (as_tuple cats))) fws p)"
    by auto
  then show ?thesis
    by (auto simp: specs_of_path_def framework_spec_def split: if_splits)
qed

lemma produced_test:
  assumes "make_spec d fws ems cats wt tlim rlim rate bms = Inr r" and "fs \<in> set r"
    and "t \<in> set (FrameworkSpec.tests fs)"
  shows "\<exists>bm\<in>set (as_tuple bms). \<exists>em\<in>set (as_tuple ems). \<exists>c\<in>set TEST_CATEGORIES.
           \<exists>e\<in>set (TestCategory.endpoints c).
             TestCategory.name c \<in> set (as_tuple cats) \<and>
             t = test_spec (FrameworkSpec.name fs) wt tlim rlim rate bm em c e"
  using assms(3) unfolding produced_tests [OF assms(1,2)] test_specs_mem
  by (auto simp: selected_categories_def)

lemmas eval_defs = Let_def make_spec_def sanic_app_def starlite_app_def readme_def locked_app_def selected_categories_def TEST_CATEGORIES_def
  mk_category_def mk_endpoint_def requested_frameworks_def request_def parse_framework_def
  endswith_def removesuffix_def test_specs_def test_spec_def int_or_def all_frameworks_def

section \<open>The catalog as a lookup table\<close>

lemma foldl_upd_other:
  "k \<notin> f ` set cs \<Longrightarrow> foldl (\<lambda>m c. m(f c \<mapsto> c)) m cs k = m k"
  by (induction cs arbitrary: m) auto

lemma foldl_upd_distinct:
  "distinct (map f cs) \<Longrightarrow> c \<in> set cs \<Longrightarrow> foldl (\<lambda>m c. m(f c \<mapsto> c)) m cs (f c) = Some c"
proof (induction cs arbitrary: m)
  case Nil
  then show ?case by simp
next
  case (Cons a cs)
  show ?case
  proof (cases "c = a")
    case True
    with Cons.prems have n: "f c \<notin> f ` set cs" by auto
    have "foldl (\<lambda>m c. m(f c \<mapsto> c)) m (a # cs) (f c)
            = foldl (\<lambda>m c. m(f c \<mapsto> c)) (m(f a \<mapsto> a)) cs (f c)"
      by (simp only: foldl_Cons)
    also have "\<dots> = (m(f a \<mapsto> a)) (f c)"
      by (rule foldl_upd_other [OF n])
    also have "\<dots> = Some c"
      by (simp add: True)
    finally show ?thesis .
  next
    case False
    with Cons show ?thesis by auto
  qed
qed

lemma find_distinct:
  "distinct (map f es) \<Longrightarrow> e \<in> set es \<Longrightarrow> find (\<lambda>x. f x = f e) es = Some e"
  by (induction es) auto

lemma category_names_distinct: "distinct (map TestCategory.name TEST_CATEGORIES)"
  by (simp add: TEST_CATEGORIES_def mk_category_def)

lemma endpoint_names_distinct:
  "c \<in> set TEST_CATEGORIES \<Longrightarrow> distinct (map Endpoint.name (TestCategory.endpoints c))"
  by (auto simp: TEST_CATEGORIES_def mk_category_def mk_endpoint_def)

lemma category_by_name:
  "c \<in> set TEST_CATEGORIES \<Longrightarrow> CATEGORIES_BY_NAME (TestCategory.name c) = Some c"
  unfolding CATEGORIES_BY_NAME_def
  by (rule foldl_upd_distinct [OF category_names_distinct])

lemma endpoint_by_name:
  "c \<in> set TEST_CATEGORIES \<Longrightarrow> e \<in> set (TestCategory.endpoints c) \<Longrightarrow>
   find (\<lambda>x. Endpoint.name x = Endpoint.name e) (TestCategory.endpoints c) = Some e"
  by (rule find_distinct [OF endpoint_names_distinct])

lemma produced_endpoint:
  assumes "make_spec d fws ems cats wt tlim rlim rate bms = Inr r" and "fs \<in> set r"
    and "t \<in> set (FrameworkSpec.tests fs)"
  shows "\<exists>c e bm em.
           CATEGORIES_BY_NAME (TestSpec.category t) = Some c \<and>
           find (\<lambda>x. Endpoint.name x = TestSpec.name t) (TestCategory.endpoints c) = Some e \<and>
           t = test_spec (FrameworkSpec.name fs) wt tlim rlim rate bm em c e"
proof -
  from produced_test [OF assms] obtain bm em c e where
    c: "c \<in> set TEST_CATEGORIES" and e: "e \<in> set (TestCategory.endpoints c)"
    and t: "t = test_spec (FrameworkSpec.name fs) wt tlim rlim rate bm em c e" by blast
  have "TestSpec.category t = TestCategory.name c" "TestSpec.name t = Endpoint.name e"
    by (simp_all add: t test_spec_def)
  with category_by_name [OF c] endpoint_by_name [OF c e] t show ?thesis by metis
qed

lemma di_category:
  "CATEGORIES_BY_NAME ''dependency-injection'' = Some c \<Longrightarrow>
   TestCategory.frameworks c = [''starlite'', ''fastapi'', ''sanic'', ''blacksheep''] \<and>
   (\<forall>e\<in>set (TestCategory.endpoints c). Endpoint.path e = ''dependencies-async'' \<longrightarrow>
      Endpoint.exclude e = [''sanic'', ''blacksheep''])"
  by (auto simp: CATEGORIES_BY_NAME_def TEST_CATEGORIES_def mk_category_def mk_endpoint_def)

section \<open>Adapter files and uniform concatenations\<close>

lemma endswith_append: "endswith (n @ suf) suf"
  by (simp add: endswith_def)

lemma removesuffix_append: "suf \<noteq> [] \<Longrightarrow> removesuffix (n @ suf) suf = n"
  by (simp add: removesuffix_def endswith_def)

lemma endswith_removesuffix: "endswith s suf \<Longrightarrow> removesuffix s suf @ suf = s"
proof -
  assume e: "endswith s suf"
  then have "take (length s - length suf) s @ suf = s"
    unfolding endswith_def by (metis append_take_drop_id)
  with e show ?thesis
    by (cases "suf = []") (simp_all add: removesuffix_def)
qed

lemma is_adapter_iff:
  "is_adapter p \<longleftrightarrow> Path.is_file p = Inr True \<and> Path.name p = adapter_name p @ ''_app.py''"
proof
  assume "is_adapter p"
  then show "Path.is_file p = Inr True \<and> Path.name p = adapter_name p @ ''_app.py''"
    using endswith_removesuffix [of "Path.name p" "''_app.py''"]
    by (simp add: is_adapter_def adapter_name_def)
next
  assume a: "Path.is_file p = Inr True \<and> Path.name p = adapter_name p @ ''_app.py''"
  then have "endswith (Path.name p) ''_app.py''"
    using endswith_append [of "adapter_name p" "''_app.py''"] by simp
  with a show "is_adapter p" by (simp add: is_adapter_def)
qed

lemma adapter_name_append: "Path.name p = n @ ''_app.py'' \<Longrightarrow> adapter_name p = n"
  using removesuffix_append [of "''_app.py''" n] by (simp add: adapter_name_def)

lemma specs_of_path_name:
  "fs \<in> set (specs_of_path mk fws p) \<Longrightarrow>
     is_adapter p \<and> FrameworkSpec.name fs = adapter_name p \<and> FrameworkSpec.path fs = p \<and>
     FrameworkSpec.tests fs = mk (adapter_name p) \<and>
     FrameworkSpec.version fs \<in> set (requested_versions (adapter_name p) fws)"
  by (auto simp: specs_of_path_def framework_spec_def split: if_splits)

lemma requested_versions_mem:
  "v \<in> set (requested_versions n fws) \<Longrightarrow> \<exists>f\<in>set fws. fst (parse_framework f) = n"
  by (auto simp: requested_versions_def)

lemma concat_single:
  "distinct xs \<Longrightarrow> p \<in> set xs \<Longrightarrow> concat (map (\<lambda>q. if q = p then g else []) xs) = g"
  by (induction xs) auto

lemma length_concat_uniform:
  "(\<forall>x\<in>set xs. length (f x) = n) \<Longrightarrow> length (concat (map f xs)) = length xs * n"
  by (induction xs) simp_all

lemma nth_concat_uniform:
  "(\<forall>x\<in>set xs. length (f x) = n) \<Longrightarrow> i < length xs \<Longrightarrow> k < n \<Longrightarrow>
   concat (map f xs) ! (i * n + k) = f (xs ! i) ! k"
proof (induction xs arbitrary: i)
  case Nil
  then show ?case by simp
next
  case (Cons x xs)
  show ?case
  proof (cases i)
    case 0
    with Cons.prems show ?thesis by (simp add: nth_append)
  next
    case (Suc j)
    have len: "length (f x) = n" using Cons.prems(1) by simp
    have "concat (map f (x # xs)) ! (i * n + k) = (f x @ concat (map f xs)) ! (n + (j * n + k))"
      by (simp add: Suc add.assoc)
    also have "\<dots> = concat (map f xs) ! (j * n + k)"
      using len by (simp add: nth_append)
    also have "\<dots> = f (xs ! j) ! k"
      using Cons.prems Suc by (intro Cons.IH) simp_all
    finally show ?thesis by (simp add: Suc)
  qed
qed

lemma test_specs_pairs:
  "test_specs n wt tlim rlim rate bs es sel =
     concat (map (\<lambda>bm. concat (map (\<lambda>em.
        map (\<lambda>ce. test_spec n wt tlim rlim rate bm em (fst ce) (snd ce))
            (category_endpoint_pairs sel)) es)) bs)"
  by (simp add: test_specs_def category_endpoint_pairs_def map_concat comp_def)

lemma test_specs_length:
  "length (test_specs n wt tlim rlim rate bs es sel)
     = length bs * length es * length (category_endpoint_pairs sel)"
proof -
  let ?ps = "category_endpoint_pairs sel"
  let ?blk = "\<lambda>bm. concat (map (\<lambda>em.
        map (\<lambda>ce. test_spec n wt tlim rlim rate bm em (fst ce) (snd ce)) ?ps) es)"
  have blk: "length (?blk bm) = length es * length ?ps" for bm
    by (rule length_concat_uniform) simp
  have "length (concat (map ?blk bs)) = length bs * (length es * length ?ps)"
    by (rule length_concat_uniform) (simp add: blk)
  then show ?thesis by (simp add: test_specs_pairs mult.assoc)
qed

lemma test_specs_nth:
  assumes "i < length bs" and "j < length es" and "k < length (category_endpoint_pairs sel)"
  shows "test_specs n wt tlim rlim rate bs es sel
           ! ((i * length es + j) * length (category_endpoint_pairs sel) + k)
         = test_spec n wt tlim rlim rate (bs ! i) (es ! j)
             (fst (category_endpoint_pairs sel ! k)) (snd (category_endpoint_pairs sel ! k))"
proof -
  let ?ps = "category_endpoint_pairs sel"
  let ?row = "\<lambda>bm em. map (\<lambda>ce. test_spec n wt tlim rlim rate bm em (fst ce) (snd ce)) ?ps"
  let ?blk = "\<lambda>bm. concat (map (?row bm) es)"
  have blk_len: "length (?blk bm) = length es * length ?ps" for bm
    by (rule length_concat_uniform) simp
  have inner: "j * length ?ps + k < length es * length ?ps"
  proof -
    have "j * length ?ps + k < j * length ?ps + length ?ps" using assms(3) by simp
    also have "\<dots> = Suc j * length ?ps" by simp
    also have "\<dots> \<le> length es * length ?ps"
      using assms(2) by (intro mult_le_mono1) simp
    finally show ?thesis .
  qed
  have idx: "(i * length es + j) * length ?ps + k
               = i * (length es * length ?ps) + (j * length ?ps + k)"
    by (simp add: algebra_simps)
  have "concat (map ?blk bs) ! (i * (length es * length ?ps) + (j * length ?ps + k))
          = ?blk (bs ! i) ! (j * length ?ps + k)"
    using assms(1) inner by (intro nth_concat_uniform) (simp_all add: blk_len)
  also have "\<dots> = ?row (bs ! i) (es ! j) ! k"
    using assms(2,3) by (intro nth_concat_uniform) simp_all
  also have "\<dots> = test_spec n wt tlim rlim rate (bs ! i) (es ! j) (fst (?ps ! k)) (snd (?ps ! k))"
    using assms(3) by simp
  finally show ?thesis by (simp only: test_specs_pairs idx)
qed

section \<open>Concrete runs\<close>

lemma di_run:
  "make_spec (Inr [sanic_app, starlite_app]) [''starlite'', ''sanic''] (Str ''sync'')
     (Str ''dependency-injection'') None None None None (Str ''rps'')
   = Inr [di_sanic_fs, di_starlite_fs]"
  by (simp add: eval_defs)

lemma override_run:
  "make_spec (Inr [sanic_app]) [''sanic''] (Str ''sync'') (Str ''dynamic-response'')
     None (Some 30) (Some 5) (Some 7) (Tuple [''rps'', ''latency'']) = Inr [override_fs]"
  by (simp add: eval_defs)

lemma params_run:
  "make_spec (Inr [sanic_app]) [''sanic''] (Str ''sync'') (Str ''params'')
     None None None None (Str ''rps'') = Inr [params_fs]"
  by (simp add: eval_defs)

lemma zero_run:
  "make_spec (Inr [sanic_app]) [''sanic''] (Str ''sync'') (Str ''dynamic-response'')
     None (Some 0) (Some 0) (Some 0) (Tuple [''rps'', ''latency'']) = Inr [zero_fs]"
  by (simp add: eval_defs)

lemma cross_run:
  "make_spec (Inr [sanic_app]) [''sanic''] (Tuple [''sync'', ''async''])
     (Tuple [''dependency-injection'', ''dynamic-response'']) None None None None
     (Tuple [''rps'', ''latency'']) = Inr [cross_fs]"
  by (simp add: eval_defs)

lemma cross_pairs:
  "category_endpoint_pairs
     (filter (\<lambda>c. TestCategory.name c
                \<in> set (as_tuple (Tuple [''dependency-injection'', ''dynamic-response''])))
        TEST_CATEGORIES)
   = [(TEST_CATEGORIES ! 4, TestCategory.endpoints (TEST_CATEGORIES ! 4) ! 0),
      (TEST_CATEGORIES ! 4, TestCategory.endpoints (TEST_CATEGORIES ! 4) ! 1),
      (TEST_CATEGORIES ! 5, TestCategory.endpoints (TEST_CATEGORIES ! 5) ! 0),
      (TEST_CATEGORIES ! 5, TestCategory.endpoints (TEST_CATEGORIES ! 5) ! 1),
      (TEST_CATEGORIES ! 5, TestCategory.endpoints (TEST_CATEGORIES ! 5) ! 2)]"
  by (simp add: category_endpoint_pairs_def TEST_CATEGORIES_def mk_category_def mk_endpoint_def)

lemma listing_run:
  "make_spec (Inr [starlite_app, readme, sanic_app]) [''sanic@1'', ''starlite'', ''sanic'']
     (Str ''sync'') (Tuple []) None None None None (Str ''rps'')
   = Inr [bare_fs ''starlite'' None starlite_app,
          bare_fs ''sanic'' (Some ''1'') sanic_app,
          bare_fs ''sanic'' None sanic_app]"
  by (simp add: eval_defs)

lemma versions_run:
  "make_spec (Inr [sanic_app]) [''sanic@23.3'', ''sanic@22.12''] (Str ''sync'')
     (Str ''dynamic-response'') None None None None (Str ''rps'')
   = Inr [version_fs (Some ''23.3''), version_fs (Some ''22.12'')]"
  by (simp add: eval_defs)

lemma no_category_run:
  "make_spec (Inr [sanic_app]) [''sanic''] (Str ''sync'') (Str ''websockets'')
     None None None None (Str ''rps'') = Inr [bare_fs ''sanic'' None sanic_app]"
  by (simp add: eval_defs)

section \<open>Properties of make_spec\<close>

text \<open>
  C1. For every \<open>TestSpec\<close> that \<open>make_spec\<close> produces, \<open>is_supported\<close> holds if and only if
  the name of the owning framework is in the framework set of the test's category and is
  not in the exclusion list of the test's endpoint. The category is the catalog entry of
  the test's category name, the endpoint the one of that category bearing the test's name.
  In particular, for the category \<open>dependency-injection\<close> and the endpoint
  \<open>dependencies-async\<close>, the framework sanic gets \<open>False\<close> and starlite gets \<open>True\<close>.
\<close>

theorem is_supported_iff:
  assumes "make_spec d fws ems cats wt tlim rlim rate bms = Inr r" and "fs \<in> set r"
    and "t \<in> set (FrameworkSpec.tests fs)"
  shows "(\<exists>c e. CATEGORIES_BY_NAME (TestSpec.category t) = Some c \<and>
            find (\<lambda>x. Endpoint.name x = TestSpec.name t) (TestCategory.endpoints c) = Some e \<and>
            TestSpec.path t = ''/'' @ TestSpec.endpoint_mode t @ ''-'' @ Endpoint.path e \<and>
            (TestSpec.is_supported t \<longleftrightarrow>
               FrameworkSpec.name fs \<in> set (TestCategory.frameworks c) \<and>
               FrameworkSpec.name fs \<notin> set (Endpoint.exclude e)))
         \<and> (TestSpec.category t = ''dependency-injection'' \<and>
            TestSpec.path t = ''/'' @ TestSpec.endpoint_mode t @ ''-dependencies-async'' \<longrightarrow>
              (FrameworkSpec.name fs = ''sanic'' \<longrightarrow> \<not> TestSpec.is_supported t) \<and>
              (FrameworkSpec.name fs = ''starlite'' \<longrightarrow> TestSpec.is_supported t))"
proof -
  from produced_endpoint [OF assms] obtain c e bm em where
    c: "CATEGORIES_BY_NAME (TestSpec.category t) = Some c"
    and e: "find (\<lambda>x. Endpoint.name x = TestSpec.name t) (TestCategory.endpoints c) = Some e"
    and t: "t = test_spec (FrameworkSpec.name fs) wt tlim rlim rate bm em c e" by blast
  have p: "TestSpec.path t = ''/'' @ TestSpec.endpoint_mode t @ ''-'' @ Endpoint.path e"
    by (simp add: t test_spec_def)
  have s: "TestSpec.is_supported t \<longleftrightarrow>
             FrameworkSpec.name fs \<in> set (TestCategory.frameworks c) \<and>
             FrameworkSpec.name fs \<notin> set (Endpoint.exclude e)"
    by (simp add: t test_spec_def)
  have mem: "e \<in> set (TestCategory.endpoints c)"
    using e by (auto simp: find_Some_iff in_set_conv_nth)
  have "(FrameworkSpec.name fs = ''sanic'' \<longrightarrow> \<not> TestSpec.is_supported t) \<and>
        (FrameworkSpec.name fs = ''starlite'' \<longrightarrow> TestSpec.is_supported t)"
    if cat: "TestSpec.category t = ''dependency-injection''"
      and pth: "TestSpec.path t = ''/'' @ TestSpec.endpoint_mode t @ ''-dependencies-async''"
  proof -
    from pth p have "Endpoint.path e = ''dependencies-async''" by simp
    with di_category [of c] c cat mem
    have "TestCategory.frameworks c = [''starlite'', ''fastapi'', ''sanic'', ''blacksheep'']"
      and "Endpoint.exclude e = [''sanic'', ''blacksheep'']" by auto
    then show ?thesis by (simp add: s)
  qed
  with c e p s show ?thesis by blast
qed

theorem is_supported_iff_witness:
  "make_spec (Inr [sanic_app, starlite_app]) [''starlite'', ''sanic''] (Str ''sync'')
     (Str ''dependency-injection'') None None None None (Str ''rps'')
     = Inr [di_sanic_fs, di_starlite_fs]
   \<and> di_sanic_fs \<in> set [di_sanic_fs, di_starlite_fs]
   \<and> di_starlite_fs \<in> set [di_sanic_fs, di_starlite_fs]
   \<and> FrameworkSpec.tests di_sanic_fs ! 1 \<in> set (FrameworkSpec.tests di_sanic_fs)
   \<and> FrameworkSpec.tests di_starlite_fs ! 1 \<in> set (FrameworkSpec.tests di_starlite_fs)
   \<and> TestSpec.category (FrameworkSpec.tests di_sanic_fs ! 1) = ''dependency-injection''
   \<and> TestSpec.path (FrameworkSpec.tests di_sanic_fs ! 1) = ''/sync-dependencies-async''
   \<and> \<not> TestSpec.is_supported (FrameworkSpec.tests di_sanic_fs ! 1)
   \<and> TestSpec.is_supported (FrameworkSpec.tests di_starlite_fs ! 1)"
proof -
  have m1: "di_sanic_fs \<in> set [di_sanic_fs, di_starlite_fs]" by simp
  have m2: "di_starlite_fs \<in> set [di_sanic_fs, di_starlite_fs]" by simp
  have t1: "FrameworkSpec.tests di_sanic_fs ! 1 \<in> set (FrameworkSpec.tests di_sanic_fs)"
    by simp
  have t2: "FrameworkSpec.tests di_starlite_fs ! 1 \<in> set (FrameworkSpec.tests di_starlite_fs)"
    by simp
  from is_supported_iff [OF di_run m1 t1]
  have "\<not> TestSpec.is_supported (FrameworkSpec.tests di_sanic_fs ! 1)" by simp
  moreover from is_supported_iff [OF di_run m2 t2]
  have "TestSpec.is_supported (FrameworkSpec.tests di_starlite_fs ! 1)" by simp
  ultimately show ?thesis using di_run by simp
qed

text \<open>
  C2, as stated, fails. An explicit \<open>time_limit = 30\<close> is not carried into a test of
  benchmark mode \<open>latency\<close>, whose \<open>time_limit\<close> stays unset; and an explicit
  \<open>time_limit = 0\<close> gives 15, not 0, in a test of benchmark mode \<open>rps\<close>.
\<close>

theorem limits_claim_counterexample:
  "time_limits (make_spec (Inr [sanic_app]) [''sanic''] (Str ''sync'') (Str ''dynamic-response'')
      None (Some 30) None None (Str ''latency'')) = Inr [[None, None]]
   \<and> time_limits (make_spec (Inr [sanic_app]) [''sanic''] (Str ''sync'') (Str ''dynamic-response'')
      None (Some 0) None None (Str ''rps'')) = Inr [[Some 15, Some 15]]"
  by (simp add: time_limits_def eval_defs)

text \<open>
  C2, amended. For every \<open>TestSpec\<close> produced: \<open>time_limit\<close> is set only when the test's
  benchmark mode is \<open>rps\<close>, and is then the explicit override if one was given and is not
  zero, else 15; in any other mode it is unset, whatever the override. \<open>request_limit\<close>
  and \<open>rate_limit\<close> are set only when the mode is \<open>latency\<close>, and are then the explicit
  non-zero override, else 1000 and 20; in any other mode they are unset.
\<close>

theorem limits_by_benchmark_mode:
  assumes "make_spec d fws ems cats wt tlim rlim rate bms = Inr r" and "fs \<in> set r"
    and "t \<in> set (FrameworkSpec.tests fs)"
  shows "TestSpec.time_limit t =
           (if TestSpec.benchmark_mode t = ''rps''
            then (if tlim = None \<or> tlim = Some 0 then Some 15 else tlim) else None) \<and>
         TestSpec.request_limit t =
           (if TestSpec.benchmark_mode t = ''latency''
            then (if rlim = None \<or> rlim = Some 0 then Some 1000 else rlim) else None) \<and>
         TestSpec.rate_limit t =
           (if TestSpec.benchmark_mode t = ''latency''
            then (if rate = None \<or> rate = Some 0 then Some 20 else rate) else None)"
proof -
  from produced_test [OF assms] obtain bm em c e where
    "t = test_spec (FrameworkSpec.name fs) wt tlim rlim rate bm em c e" by blast
  then show ?thesis by (auto simp: test_spec_def int_or_def)
qed

theorem limits_by_benchmark_mode_witness:
  "make_spec (Inr [sanic_app]) [''sanic''] (Str ''sync'') (Str ''dynamic-response'')
     None (Some 30) (Some 5) (Some 7) (Tuple [''rps'', ''latency'']) = Inr [override_fs]
   \<and> override_fs \<in> set [override_fs]
   \<and> FrameworkSpec.tests override_fs ! 0 \<in> set (FrameworkSpec.tests override_fs)
   \<and> FrameworkSpec.tests override_fs ! 2 \<in> set (FrameworkSpec.tests override_fs)
   \<and> TestSpec.benchmark_mode (FrameworkSpec.tests override_fs ! 0) = ''rps''
   \<and> TestSpec.time_limit (FrameworkSpec.tests override_fs ! 0) = Some 30
   \<and> TestSpec.request_limit (FrameworkSpec.tests override_fs ! 0) = None
   \<and> TestSpec.rate_limit (FrameworkSpec.tests override_fs ! 0) = None
   \<and> TestSpec.benchmark_mode (FrameworkSpec.tests override_fs ! 2) = ''latency''
   \<and> TestSpec.time_limit (FrameworkSpec.tests override_fs ! 2) = None
   \<and> TestSpec.request_limit (FrameworkSpec.tests override_fs ! 2) = Some 5
   \<and> TestSpec.rate_limit (FrameworkSpec.tests override_fs ! 2) = Some 7"
proof -
  have m: "override_fs \<in> set [override_fs]" by simp
  have t0: "FrameworkSpec.tests override_fs ! 0 \<in> set (FrameworkSpec.tests override_fs)"
    by simp
  have t2: "FrameworkSpec.tests override_fs ! 2 \<in> set (FrameworkSpec.tests override_fs)"
    by simp
  show ?thesis
    using limits_by_benchmark_mode [OF override_run m t0]
      limits_by_benchmark_mode [OF override_run m t2] override_run
    by simp
qed

text \<open>
  C3. For every \<open>TestSpec\<close> produced: \<open>path\<close> is \<open>/\<close>, the endpoint mode, \<open>-\<close> and the
  endpoint's path; \<open>slug_name\<close> is the endpoint mode, \<open>-\<close> and the endpoint's path cut before
  its first \<open>?\<close>. Equivalently, for an endpoint mode without \<open>?\<close> (the modes of
  \<open>EndpointMode\<close>, such as \<open>sync\<close> and \<open>async\<close>, have none), \<open>slug_name\<close> is \<open>path\<close> without
  the leading \<open>/\<close> and without the query string. The endpoint path
  \<open>query-param?first=42\<close> with the mode \<open>sync\<close> gives the path \<open>/sync-query-param?first=42\<close>
  and the slug \<open>sync-query-param\<close>.
\<close>

theorem slug_and_path:
  assumes "make_spec d fws ems cats wt tlim rlim rate bms = Inr r" and "fs \<in> set r"
    and "t \<in> set (FrameworkSpec.tests fs)"
  shows "\<exists>c e. CATEGORIES_BY_NAME (TestSpec.category t) = Some c \<and>
            find (\<lambda>x. Endpoint.name x = TestSpec.name t) (TestCategory.endpoints c) = Some e \<and>
            TestSpec.path t = ''/'' @ TestSpec.endpoint_mode t @ ''-'' @ Endpoint.path e \<and>
            TestSpec.slug_name t =
              TestSpec.endpoint_mode t @ ''-'' @ takeWhile (\<lambda>x. x \<noteq> CHR ''?'') (Endpoint.path e) \<and>
            (CHR ''?'' \<notin> set (TestSpec.endpoint_mode t) \<longrightarrow>
               TestSpec.slug_name t = slug_of_path (TestSpec.path t)) \<and>
            (TestSpec.endpoint_mode t = ''sync'' \<and> Endpoint.path e = ''query-param?first=42'' \<longrightarrow>
               TestSpec.path t = ''/sync-query-param?first=42'' \<and>
               TestSpec.slug_name t = ''sync-query-param'')"
proof -
  from produced_endpoint [OF assms] obtain c e bm em where
    c: "CATEGORIES_BY_NAME (TestSpec.category t) = Some c"
    and e: "find (\<lambda>x. Endpoint.name x = TestSpec.name t) (TestCategory.endpoints c) = Some e"
    and t: "t = test_spec (FrameworkSpec.name fs) wt tlim rlim rate bm em c e" by blast
  have p: "TestSpec.path t = ''/'' @ TestSpec.endpoint_mode t @ ''-'' @ Endpoint.path e"
    by (simp add: t test_spec_def)
  have s: "TestSpec.slug_name t =
             TestSpec.endpoint_mode t @ ''-'' @ takeWhile (\<lambda>x. x \<noteq> CHR ''?'') (Endpoint.path e)"
    by (simp add: t test_spec_def hd_str_split)
  have q: "TestSpec.slug_name t = slug_of_path (TestSpec.path t)"
    if "CHR ''?'' \<notin> set (TestSpec.endpoint_mode t)"
  proof -
    have "takeWhile (\<lambda>x. x \<noteq> CHR ''?'') (TestSpec.endpoint_mode t @ ''-'' @ Endpoint.path e)
            = TestSpec.endpoint_mode t @ takeWhile (\<lambda>x. x \<noteq> CHR ''?'') (''-'' @ Endpoint.path e)"
      by (rule takeWhile_append2) (use that in auto)
    then show ?thesis by (simp add: p s slug_of_path_def)
  qed
  have x: "TestSpec.path t = ''/sync-query-param?first=42'' \<and>
           TestSpec.slug_name t = ''sync-query-param''"
    if "TestSpec.endpoint_mode t = ''sync''" "Endpoint.path e = ''query-param?first=42''"
    using that by (simp add: p s)
  from c e p s q x show ?thesis by blast
qed

theorem slug_and_path_witness:
  "make_spec (Inr [sanic_app]) [''sanic''] (Str ''sync'') (Str ''params'')
     None None None None (Str ''rps'') = Inr [params_fs]
   \<and> params_fs \<in> set [params_fs]
   \<and> FrameworkSpec.tests params_fs ! 2 \<in> set (FrameworkSpec.tests params_fs)
   \<and> CHR ''?'' \<notin> set (TestSpec.endpoint_mode (FrameworkSpec.tests params_fs ! 2))
   \<and> TestSpec.endpoint_mode (FrameworkSpec.tests params_fs ! 2) = ''sync''
   \<and> TestSpec.path (FrameworkSpec.tests params_fs ! 2) = ''/sync-query-param?first=42''
   \<and> TestSpec.slug_name (FrameworkSpec.tests params_fs ! 2) = ''sync-query-param''
   \<and> slug_of_path (TestSpec.path (FrameworkSpec.tests params_fs ! 2)) = ''sync-query-param''"
proof -
  have m: "params_fs \<in> set [params_fs]" by simp
  have t2: "FrameworkSpec.tests params_fs ! 2 \<in> set (FrameworkSpec.tests params_fs)"
    by simp
  from slug_and_path [OF params_run m t2]
  have "slug_of_path (TestSpec.path (FrameworkSpec.tests params_fs ! 2)) = ''sync-query-param''"
    by auto
  then show ?thesis using params_run by simp
qed

text \<open>
  C4. The test list of every produced \<open>FrameworkSpec\<close> is the full cross-product with the
  benchmark mode as the outermost loop, then the endpoint mode, then the category, then
  the endpoint: with \<open>ps\<close> the (category, endpoint) pairs of the catalog's categories whose
  name was requested, taken in catalog order with the endpoints in declared order, the
  test at position \<open>(i * |endpoint modes| + j) * |ps| + k\<close> is the one built from the
  \<open>i\<close>-th benchmark mode, the \<open>j\<close>-th endpoint mode and the \<open>k\<close>-th pair. The order in
  which the categories were requested does not matter: two requests naming the same set
  of categories give the same result.
\<close>

theorem test_specs_order:
  assumes "make_spec d fws ems cats wt tlim rlim rate bms = Inr r" and "fs \<in> set r"
    and "bs = as_tuple bms" and "es = as_tuple ems"
    and "ps = category_endpoint_pairs
                (filter (\<lambda>c. TestCategory.name c \<in> set (as_tuple cats)) TEST_CATEGORIES)"
  shows "length (FrameworkSpec.tests fs) = length bs * length es * length ps \<and>
         (\<forall>i<length bs. \<forall>j<length es. \<forall>k<length ps.
            FrameworkSpec.tests fs ! ((i * length es + j) * length ps + k)
              = test_spec (FrameworkSpec.name fs) wt tlim rlim rate (bs ! i) (es ! j)
                  (fst (ps ! k)) (snd (ps ! k))) \<and>
         (\<forall>cats'. set (as_tuple cats') = set (as_tuple cats) \<longrightarrow>
            make_spec d fws ems cats' wt tlim rlim rate bms
              = make_spec d fws ems cats wt tlim rlim rate bms)"
proof -
  have ps: "ps = category_endpoint_pairs (selected_categories (as_tuple cats))"
    by (simp add: assms(5) selected_categories_def)
  have t: "FrameworkSpec.tests fs =
             test_specs (FrameworkSpec.name fs) wt tlim rlim rate bs es
               (selected_categories (as_tuple cats))"
    using produced_tests [OF assms(1,2)] by (simp add: assms(3,4))
  have l: "length (FrameworkSpec.tests fs) = length bs * length es * length ps"
    by (simp add: t ps test_specs_length)
  have n: "FrameworkSpec.tests fs ! ((i * length es + j) * length ps + k)
             = test_spec (FrameworkSpec.name fs) wt tlim rlim rate (bs ! i) (es ! j)
                 (fst (ps ! k)) (snd (ps ! k))"
    if "i < length bs" "j < length es" "k < length ps" for i j k
    using that unfolding t ps by (rule test_specs_nth)
  have o: "make_spec d fws ems cats' wt tlim rlim rate bms
             = make_spec d fws ems cats wt tlim rlim rate bms"
    if "set (as_tuple cats') = set (as_tuple cats)" for cats'
  proof -
    have sel: "selected_categories (as_tuple cats') = selected_categories (as_tuple cats)"
      using that by (simp add: selected_categories_def)
    show ?thesis unfolding make_spec_def Let_def sel ..
  qed
  show ?thesis
  proof (intro conjI allI impI)
    show "length (FrameworkSpec.tests fs) = length bs * length es * length ps" by (rule l)
  next
    fix i j k assume "i < length bs" "j < length es" "k < length ps"
    then show "FrameworkSpec.tests fs ! ((i * length es + j) * length ps + k)
             = test_spec (FrameworkSpec.name fs) wt tlim rlim rate (bs ! i) (es ! j)
                 (fst (ps ! k)) (snd (ps ! k))" by (rule n)
  next
    fix cats' assume "set (as_tuple cats') = set (as_tuple cats)"
    then show "make_spec d fws ems cats' wt tlim rlim rate bms
             = make_spec d fws ems cats wt tlim rlim rate bms" by (rule o)
  qed
qed

theorem test_specs_order_witness:
  "make_spec (Inr [sanic_app]) [''sanic''] (Tuple [''sync'', ''async''])
     (Tuple [''dependency-injection'', ''dynamic-response'']) None None None None
     (Tuple [''rps'', ''latency'']) = Inr [cross_fs]
   \<and> cross_fs \<in> set [cross_fs]
   \<and> length (FrameworkSpec.tests cross_fs) = 2 * 2 * 5
   \<and> FrameworkSpec.tests cross_fs ! ((1 * 2 + 0) * 5 + 3)
       = ts ''/sync-dependencies-async'' ''sync'' ''latency'' ''dependency-injection''
           ''dependencies async'' None (Some 1000) (Some 20) ''sync-dependencies-async'' False
   \<and> set (as_tuple (Tuple [''dynamic-response'', ''dependency-injection'']))
       = set (as_tuple (Tuple [''dependency-injection'', ''dynamic-response'']))
   \<and> make_spec (Inr [sanic_app]) [''sanic''] (Tuple [''sync'', ''async''])
       (Tuple [''dynamic-response'', ''dependency-injection'']) None None None None
       (Tuple [''rps'', ''latency'']) = Inr [cross_fs]"
proof -
  have m: "cross_fs \<in> set [cross_fs]" by simp
  note th = test_specs_order [OF cross_run m refl refl cross_pairs [symmetric]]
  have s: "set (as_tuple (Tuple [''dynamic-response'', ''dependency-injection'']))
             = set (as_tuple (Tuple [''dependency-injection'', ''dynamic-response'']))"
    by auto
  have l: "length (FrameworkSpec.tests cross_fs) = 2 * 2 * 5"
    using th [THEN conjunct1] by simp
  have o: "make_spec (Inr [sanic_app]) [''sanic''] (Tuple [''sync'', ''async''])
       (Tuple [''dynamic-response'', ''dependency-injection'']) None None None None
       (Tuple [''rps'', ''latency'']) = Inr [cross_fs]"
    using th [THEN conjunct2, THEN conjunct2, rule_format, OF s] cross_run by simp
  show ?thesis using cross_run l o s by simp
qed

text \<open>
  C5. The returned \<open>FrameworkSpec\<close>s follow the order in which the adapter files appear in
  the directory listing; the ones of one adapter follow the order in which the framework
  strings of that name were requested. (A list is returned when \<open>is_file()\<close> answers for
  every entry of the listing.)
\<close>

theorem framework_specs_order:
  assumes "readable paths"
  shows "\<exists>r. make_spec (Inr paths) fws ems cats wt tlim rlim rate bms = Inr r \<and>
        map (\<lambda>fs. (FrameworkSpec.path fs, FrameworkSpec.name fs, FrameworkSpec.version fs)) r =
          concat (map (\<lambda>p. map (\<lambda>v. (p, adapter_name p, v))
                              (requested_versions (adapter_name p) fws))
                      (filter is_adapter paths))"
proof -
  have "map (\<lambda>fs. (FrameworkSpec.path fs, FrameworkSpec.name fs, FrameworkSpec.version fs))
          (concat (map (specs_of_path mk fws) ps)) =
        concat (map (\<lambda>p. map (\<lambda>v. (p, adapter_name p, v))
                              (requested_versions (adapter_name p) fws))
                    (filter is_adapter ps))" for mk ps
    by (induction ps) (simp_all add: specs_of_path_def framework_spec_def comp_def)
  then show ?thesis by (simp add: make_spec_Inr [OF assms])
qed

theorem framework_specs_order_witness:
  "readable [starlite_app, readme, sanic_app]
   \<and> filter is_adapter [starlite_app, readme, sanic_app] = [starlite_app, sanic_app]
   \<and> requested_versions ''sanic'' [''sanic@1'', ''starlite'', ''sanic''] = [Some ''1'', None]
   \<and> make_spec (Inr [starlite_app, readme, sanic_app]) [''sanic@1'', ''starlite'', ''sanic'']
       (Str ''sync'') (Tuple []) None None None None (Str ''rps'')
     = Inr [bare_fs ''starlite'' None starlite_app,
            bare_fs ''sanic'' (Some ''1'') sanic_app,
            bare_fs ''sanic'' None sanic_app]"
proof -
  have rd: "readable [starlite_app, readme, sanic_app]"
    by (simp add: readable_def starlite_app_def readme_def sanic_app_def)
  from framework_specs_order [OF rd, of "[''sanic@1'', ''starlite'', ''sanic'']" "Str ''sync''"
      "Tuple []" None None None None "Str ''rps''"]
  obtain r where "make_spec (Inr [starlite_app, readme, sanic_app])
      [''sanic@1'', ''starlite'', ''sanic''] (Str ''sync'') (Tuple []) None None None None
      (Str ''rps'') = Inr r" by blast
  moreover have "filter is_adapter [starlite_app, readme, sanic_app] = [starlite_app, sanic_app]"
    by (simp add: is_adapter_def endswith_def starlite_app_def readme_def sanic_app_def)
  moreover have "requested_versions ''sanic'' [''sanic@1'', ''starlite'', ''sanic'']
                   = [Some ''1'', None]"
    by (simp add: requested_versions_def parse_framework_def)
  ultimately show ?thesis using rd listing_run by simp
qed

text \<open>
  C6. When an adapter file \<open>n_app.py\<close> is present (file names in a directory are distinct)
  and \<open>is_file()\<close> answers for every entry of the listing,
  the \<open>FrameworkSpec\<close>s named \<open>n\<close> are exactly one per requested string of name \<open>n\<close>,
  carrying the requested versions in the order of the request; all of them carry the path
  of that adapter and the same test list, which does not depend on the version.
\<close>

theorem one_spec_per_version:
  assumes "distinct (map Path.name paths)" and "p \<in> set paths"
    and "Path.is_file p = Inr True" and "Path.name p = n @ ''_app.py''"
    and "readable paths"
  shows "\<exists>r. make_spec (Inr paths) fws ems cats wt tlim rlim rate bms = Inr r \<and>
           map FrameworkSpec.version (filter (\<lambda>fs. FrameworkSpec.name fs = n) r)
             = requested_versions n fws \<and>
           length (filter (\<lambda>fs. FrameworkSpec.name fs = n) r)
             = length (filter (\<lambda>f. fst (parse_framework f) = n) fws) \<and>
           (\<forall>fs\<in>set r. FrameworkSpec.name fs = n \<longrightarrow>
              FrameworkSpec.path fs = p \<and>
              FrameworkSpec.tests fs =
                test_specs n wt tlim rlim rate (as_tuple bms) (as_tuple ems)
                  (selected_categories (as_tuple cats))) \<and>
           (\<forall>fs\<in>set r. \<forall>fs'\<in>set r. FrameworkSpec.name fs = FrameworkSpec.name fs' \<longrightarrow>
              FrameworkSpec.tests fs = FrameworkSpec.tests fs')"
proof -
  define mk where "mk = (\<lambda>n. test_specs n wt tlim rlim rate (as_tuple bms) (as_tuple ems)
                   (selected_categories (as_tuple cats)))"
  define r where "r = concat (map (specs_of_path mk fws) paths)"
  have run: "make_spec (Inr paths) fws ems cats wt tlim rlim rate bms = Inr r"
    by (simp add: make_spec_Inr [OF assms(5)] r_def mk_def)
  have ad: "is_adapter p" and an: "adapter_name p = n"
    using assms(3,4) adapter_name_append [OF assms(4)] by (simp_all add: is_adapter_iff)
  have dist: "distinct paths" using assms(1) by (rule distinct_map [THEN iffD1, THEN conjunct1])
  have inj: "inj_on Path.name (set paths)"
    using assms(1) by (rule distinct_map [THEN iffD1, THEN conjunct2])
  have only_p: "q = p" if "q \<in> set paths" "is_adapter q" "adapter_name q = n" for q
  proof -
    from that(2,3) have "Path.name q = n @ ''_app.py''" by (simp add: is_adapter_iff)
    with assms(4) have "Path.name q = Path.name p" by simp
    with inj that(1) assms(2) show ?thesis by (auto dest: inj_onD)
  qed
  have sel: "filter (\<lambda>fs. FrameworkSpec.name fs = n) (specs_of_path mk fws q)
               = (if q = p then specs_of_path mk fws p else [])" if "q \<in> set paths" for q
  proof (cases "q = p")
    case True
    then show ?thesis
      by (simp add: specs_of_path_def ad an framework_spec_def)
  next
    case False
    with only_p [OF that] have "\<not> (is_adapter q \<and> adapter_name q = n)" by blast
    then have "filter (\<lambda>fs. FrameworkSpec.name fs = n) (specs_of_path mk fws q) = []"
      by (auto simp: filter_empty_conv dest: specs_of_path_name)
    with False show ?thesis by simp
  qed
  have "filter (\<lambda>fs. FrameworkSpec.name fs = n) r
          = concat (map (\<lambda>q. filter (\<lambda>fs. FrameworkSpec.name fs = n) (specs_of_path mk fws q)) paths)"
    by (simp add: r_def filter_concat comp_def)
  also have "\<dots> = concat (map (\<lambda>q. if q = p then specs_of_path mk fws p else []) paths)"
    using sel by (simp cong: map_cong)
  also have "\<dots> = specs_of_path mk fws p"
    by (rule concat_single [OF dist assms(2)])
  finally have named: "filter (\<lambda>fs. FrameworkSpec.name fs = n) r
                         = map (framework_spec mk p n) (requested_versions n fws)"
    by (simp add: specs_of_path_def ad an)
  have v: "map FrameworkSpec.version (filter (\<lambda>fs. FrameworkSpec.name fs = n) r)
             = requested_versions n fws"
    by (simp add: named framework_spec_def comp_def)
  have l: "length (filter (\<lambda>fs. FrameworkSpec.name fs = n) r)
             = length (filter (\<lambda>f. fst (parse_framework f) = n) fws)"
    by (simp add: named requested_versions_def filter_map comp_def)
  have t: "FrameworkSpec.tests fs = mk (FrameworkSpec.name fs)" if "fs \<in> set r" for fs
    using that by (auto simp: r_def dest: specs_of_path_name)
  have pth: "FrameworkSpec.path fs = p" if "fs \<in> set r" "FrameworkSpec.name fs = n" for fs
  proof -
    from that(1) obtain q where q: "q \<in> set paths" "fs \<in> set (specs_of_path mk fws q)"
      by (auto simp: r_def)
    from specs_of_path_name [OF q(2)] that(2) only_p [OF q(1)] show ?thesis by simp
  qed
  from run v l t pth show ?thesis unfolding mk_def by fastforce
qed

theorem one_spec_per_version_witness:
  "distinct (map Path.name [sanic_app]) \<and> sanic_app \<in> set [sanic_app]
   \<and> Path.is_file sanic_app = Inr True \<and> Path.name sanic_app = ''sanic'' @ ''_app.py''
   \<and> readable [sanic_app]
   \<and> make_spec (Inr [sanic_app]) [''sanic@23.3'', ''sanic@22.12''] (Str ''sync'')
       (Str ''dynamic-response'') None None None None (Str ''rps'')
     = Inr [version_fs (Some ''23.3''), version_fs (Some ''22.12'')]"
proof -
  have d: "distinct (map Path.name [sanic_app])" by simp
  have m: "sanic_app \<in> set [sanic_app]" by simp
  have f: "Path.is_file sanic_app = Inr True" by (simp add: sanic_app_def)
  have n: "Path.name sanic_app = ''sanic'' @ ''_app.py''" by (simp add: sanic_app_def)
  have rd: "readable [sanic_app]" by (simp add: readable_def sanic_app_def)
  from one_spec_per_version [OF d m f n rd, of "[''sanic@23.3'', ''sanic@22.12'']"
      "Str ''sync''" "Str ''dynamic-response''" None None None None "Str ''rps''"]
  obtain r where "make_spec (Inr [sanic_app]) [''sanic@23.3'', ''sanic@22.12''] (Str ''sync'')
      (Str ''dynamic-response'') None None None None (Str ''rps'') = Inr r"
    and "map FrameworkSpec.version (filter (\<lambda>fs. FrameworkSpec.name fs = ''sanic'') r)
           = requested_versions ''sanic'' [''sanic@23.3'', ''sanic@22.12'']"
    by blast
  with d m f n rd versions_run show ?thesis by simp
qed

text \<open>
  C7. A requested framework string is split on its first \<open>@\<close> only: what precedes it is
  the name, everything after it (further \<open>@\<close> included) is the version; a string without
  \<open>@\<close> is the name, with version \<open>None\<close>. The versions are grouped by name in the order of
  the request, duplicates kept; a name that was never requested is not a key.
\<close>

theorem split_on_first_at:
  "(CHR ''@'' \<notin> set n \<longrightarrow> parse_framework (n @ ''@'' @ v) = (n, Some v)) \<and>
   (CHR ''@'' \<notin> set f \<longrightarrow> parse_framework f = (f, None)) \<and>
   requested_frameworks fws k =
     (if requested_versions k fws = [] then None else Some (requested_versions k fws))"
proof -
  have a: "parse_framework (n @ ''@'' @ v) = (n, Some v)" if "CHR ''@'' \<notin> set n"
  proof -
    have "takeWhile (\<lambda>c. c \<noteq> CHR ''@'') (n @ ''@'' @ v) = n @ takeWhile (\<lambda>c. c \<noteq> CHR ''@'') (''@'' @ v)"
      by (rule takeWhile_append2) (use that in auto)
    moreover
    have "dropWhile (\<lambda>c. c \<noteq> CHR ''@'') (n @ ''@'' @ v) = dropWhile (\<lambda>c. c \<noteq> CHR ''@'') (''@'' @ v)"
      by (rule dropWhile_append2) (use that in auto)
    ultimately show ?thesis by (simp add: parse_framework_eq)
  qed
  have b: "parse_framework f = (f, None)" if "CHR ''@'' \<notin> set f"
  proof -
    have "takeWhile (\<lambda>c. c \<noteq> CHR ''@'') f = f" using that by auto
    then show ?thesis using that by (simp add: parse_framework_eq)
  qed
  from a b show ?thesis by (simp add: requested_frameworks_eq)
qed

theorem split_on_first_at_witness:
  "CHR ''@'' \<notin> set ''sanic'' \<and> parse_framework (''sanic'' @ ''@'' @ ''23.3@rc1'') = (''sanic'', Some ''23.3@rc1'')
   \<and> CHR ''@'' \<notin> set ''starlite'' \<and> parse_framework ''starlite'' = (''starlite'', None)
   \<and> requested_frameworks [''sanic@23.3'', ''starlite'', ''sanic'', ''sanic@23.3''] ''sanic''
       = Some [Some ''23.3'', None, Some ''23.3'']"
proof -
  have n: "CHR ''@'' \<notin> set ''sanic''" by simp
  have f: "CHR ''@'' \<notin> set ''starlite''" by simp
  have v: "requested_versions ''sanic'' [''sanic@23.3'', ''starlite'', ''sanic'', ''sanic@23.3'']
             = [Some ''23.3'', None, Some ''23.3'']"
    by (simp add: requested_versions_def parse_framework_def)
  show ?thesis
    using split_on_first_at [of "''sanic''" "''23.3@rc1''" "''starlite''"
        "[''sanic@23.3'', ''starlite'', ''sanic'', ''sanic@23.3'']" "''sanic''"] n f v
    by simp
qed

text \<open>
  C8, as stated, fails. For a request that matches nothing, \<open>make_spec\<close> raises the
  \<open>FileNotFoundError\<close> of the listing when the \<open>frameworks\<close> directory is missing, and the
  \<open>PermissionError\<close> of \<open>is_file()\<close> when an entry may not be examined; it does not return
  the empty list.
\<close>

theorem unmatched_request_raises_counterexample:
  "make_spec (Inl FileNotFoundError) [''quart''] (Str ''sync'') (Str ''params'')
      None None None None (Str ''rps'') = Inl FileNotFoundError
   \<and> make_spec (Inr [locked_app]) [''quart''] (Str ''sync'') (Str ''params'')
      None None None None (Str ''rps'') = Inl PermissionError"
  by (simp add: eval_defs)

text \<open>
  C8, amended. When the \<open>frameworks\<close> directory can be listed and \<open>is_file()\<close> answers for
  every entry, \<open>make_spec\<close> returns a list and raises nothing, whatever was requested:
  every returned \<open>FrameworkSpec\<close> has its adapter file in the listing and was requested,
  so a requested name without adapter file contributes nothing; every test belongs to a
  requested category of the catalog, so an unknown category name contributes no test; and
  when no requested name has an adapter file the result is the empty list.
\<close>

theorem unmatched_inputs_are_skipped:
  assumes "readable paths"
  shows "\<exists>r. make_spec (Inr paths) fws ems cats wt tlim rlim rate bms = Inr r \<and>
     (\<forall>fs\<in>set r.
        (\<exists>p\<in>set paths. Path.is_file p = Inr True \<and> Path.name p = FrameworkSpec.name fs @ ''_app.py'') \<and>
        (\<exists>f\<in>set fws. fst (parse_framework f) = FrameworkSpec.name fs)) \<and>
     (\<forall>fs\<in>set r. \<forall>t\<in>set (FrameworkSpec.tests fs).
        TestSpec.category t \<in> set (as_tuple cats) \<and>
        TestSpec.category t \<in> TestCategory.name ` set TEST_CATEGORIES) \<and>
     ((\<forall>f\<in>set fws. \<forall>p\<in>set paths.
         Path.is_file p = Inr True \<longrightarrow> Path.name p \<noteq> fst (parse_framework f) @ ''_app.py'') \<longrightarrow> r = []) \<and>
     ((\<forall>c\<in>set (as_tuple cats). c \<notin> TestCategory.name ` set TEST_CATEGORIES) \<longrightarrow>
        (\<forall>fs\<in>set r. FrameworkSpec.tests fs = []))"
proof -
  define mk where "mk = (\<lambda>n. test_specs n wt tlim rlim rate (as_tuple bms) (as_tuple ems)
                   (selected_categories (as_tuple cats)))"
  define r where "r = concat (map (specs_of_path mk fws) paths)"
  have run: "make_spec (Inr paths) fws ems cats wt tlim rlim rate bms = Inr r"
    by (simp add: make_spec_Inr [OF assms] r_def mk_def)
  have m: "(\<exists>p\<in>set paths. Path.is_file p = Inr True \<and> Path.name p = FrameworkSpec.name fs @ ''_app.py'') \<and>
           (\<exists>f\<in>set fws. fst (parse_framework f) = FrameworkSpec.name fs)"
    if "fs \<in> set r" for fs
  proof -
    from that obtain q where q: "q \<in> set paths" "fs \<in> set (specs_of_path mk fws q)"
      by (auto simp: r_def)
    from specs_of_path_name [OF q(2)]
    have "is_adapter q" "FrameworkSpec.name fs = adapter_name q"
      "FrameworkSpec.version fs \<in> set (requested_versions (adapter_name q) fws)" by simp_all
    then have a: "Path.is_file q = Inr True \<and> Path.name q = FrameworkSpec.name fs @ ''_app.py''"
      and v: "FrameworkSpec.version fs \<in> set (requested_versions (FrameworkSpec.name fs) fws)"
      by (simp_all add: is_adapter_iff)
    from requested_versions_mem [OF v]
    have "\<exists>f\<in>set fws. fst (parse_framework f) = FrameworkSpec.name fs" .
    moreover from a q(1)
    have "\<exists>p\<in>set paths. Path.is_file p = Inr True \<and> Path.name p = FrameworkSpec.name fs @ ''_app.py''"
      by (rule bexI [where x = q])
    ultimately show ?thesis by simp
  qed
  have c: "TestSpec.category t \<in> set (as_tuple cats) \<and>
           TestSpec.category t \<in> TestCategory.name ` set TEST_CATEGORIES"
    if "fs \<in> set r" "t \<in> set (FrameworkSpec.tests fs)" for fs t
  proof -
    from produced_test [OF run that] obtain bm em c e where
      "c \<in> set TEST_CATEGORIES" "TestCategory.name c \<in> set (as_tuple cats)"
      "t = test_spec (FrameworkSpec.name fs) wt tlim rlim rate bm em c e" by blast
    then show ?thesis by (simp add: test_spec_def)
  qed
  have e: "r = []"
    if "\<forall>f\<in>set fws. \<forall>p\<in>set paths.
          Path.is_file p = Inr True \<longrightarrow> Path.name p \<noteq> fst (parse_framework f) @ ''_app.py''"
  proof (rule ccontr)
    assume "r \<noteq> []"
    then obtain fs where "fs \<in> set r" by (cases r) auto
    from m [OF this] obtain p f where "p \<in> set paths" "Path.is_file p = Inr True"
      "Path.name p = FrameworkSpec.name fs @ ''_app.py''" "f \<in> set fws"
      "fst (parse_framework f) = FrameworkSpec.name fs" by blast
    with that show False by auto
  qed
  have n: "FrameworkSpec.tests fs = []"
    if "\<forall>c\<in>set (as_tuple cats). c \<notin> TestCategory.name ` set TEST_CATEGORIES" "fs \<in> set r" for fs
  proof (rule ccontr)
    assume "FrameworkSpec.tests fs \<noteq> []"
    then obtain t where "t \<in> set (FrameworkSpec.tests fs)" by (cases "FrameworkSpec.tests fs") auto
    from c [OF that(2) this] that(1) show False by blast
  qed
  show ?thesis
  proof (intro exI conjI)
    show "make_spec (Inr paths) fws ems cats wt tlim rlim rate bms = Inr r" by (rule run)
    show "\<forall>fs\<in>set r.
        (\<exists>p\<in>set paths. Path.is_file p = Inr True \<and> Path.name p = FrameworkSpec.name fs @ ''_app.py'') \<and>
        (\<exists>f\<in>set fws. fst (parse_framework f) = FrameworkSpec.name fs)"
      by (intro ballI) (rule m)
    show "\<forall>fs\<in>set r. \<forall>t\<in>set (FrameworkSpec.tests fs).
        TestSpec.category t \<in> set (as_tuple cats) \<and>
        TestSpec.category t \<in> TestCategory.name ` set TEST_CATEGORIES"
      by (intro ballI) (rule c)
    show "(\<forall>f\<in>set fws. \<forall>p\<in>set paths.
         Path.is_file p = Inr True \<longrightarrow> Path.name p \<noteq> fst (parse_framework f) @ ''_app.py'') \<longrightarrow> r = []"
      by (intro impI) (rule e)
    show "(\<forall>c\<in>set (as_tuple cats). c \<notin> TestCategory.name ` set TEST_CATEGORIES) \<longrightarrow>
        (\<forall>fs\<in>set r. FrameworkSpec.tests fs = [])"
      by (intro impI ballI) (rule n)
  qed
qed

theorem unmatched_inputs_are_skipped_witness:
  "readable [sanic_app]
   \<and> Path.name sanic_app \<noteq> fst (parse_framework ''quart'') @ ''_app.py''
   \<and> make_spec (Inr [sanic_app]) [''quart''] (Str ''sync'') (Str ''params'')
       None None None None (Str ''rps'') = Inr []
   \<and> ''websockets'' \<notin> TestCategory.name ` set TEST_CATEGORIES
   \<and> make_spec (Inr [sanic_app]) [''sanic''] (Str ''sync'') (Str ''websockets'')
       None None None None (Str ''rps'') = Inr [bare_fs ''sanic'' None sanic_app]"
proof -
  have rd: "readable [sanic_app]" by (simp add: readable_def sanic_app_def)
  have a: "Path.name sanic_app \<noteq> fst (parse_framework ''quart'') @ ''_app.py''"
    by (simp add: parse_framework_def sanic_app_def)
  have c: "''websockets'' \<notin> TestCategory.name ` set TEST_CATEGORIES"
    by (simp add: TEST_CATEGORIES_def mk_category_def)
  from unmatched_inputs_are_skipped [OF rd, of "[''quart'']" "Str ''sync''"
      "Str ''params''" None None None None "Str ''rps''"] a
  have r1: "make_spec (Inr [sanic_app]) [''quart''] (Str ''sync'') (Str ''params'')
       None None None None (Str ''rps'') = Inr []" by auto
  from unmatched_inputs_are_skipped [OF rd, of "[''sanic'']" "Str ''sync''"
      "Str ''websockets''" None None None None "Str ''rps''"] c
  obtain r where "make_spec (Inr [sanic_app]) [''sanic''] (Str ''sync'') (Str ''websockets'')
       None None None None (Str ''rps'') = Inr r" "\<forall>fs\<in>set r. FrameworkSpec.tests fs = []"
    by auto
  with rd a c r1 no_category_run show ?thesis by simp
qed

text \<open>
  C10. A zero override counts as absent: with \<open>time_limit = 0\<close> every produced test of
  benchmark mode \<open>rps\<close> has \<open>time_limit = 15\<close>; with \<open>request_limit = 0\<close> (or
  \<open>rate_limit = 0\<close>) every produced test of benchmark mode \<open>latency\<close> has
  \<open>request_limit = 1000\<close> (or \<open>rate_limit = 20\<close>), since the default is chosen by the
  truthiness of the override.
\<close>

theorem zero_override_is_absent:
  assumes "make_spec d fws ems cats wt tlim rlim rate bms = Inr r" and "fs \<in> set r"
    and "t \<in> set (FrameworkSpec.tests fs)"
  shows "(tlim = Some 0 \<and> TestSpec.benchmark_mode t = ''rps'' \<longrightarrow> TestSpec.time_limit t = Some 15) \<and>
         (rlim = Some 0 \<and> TestSpec.benchmark_mode t = ''latency'' \<longrightarrow> TestSpec.request_limit t = Some 1000) \<and>
         (rate = Some 0 \<and> TestSpec.benchmark_mode t = ''latency'' \<longrightarrow> TestSpec.rate_limit t = Some 20)"
proof -
  from produced_test [OF assms] obtain bm em c e where
    "t = test_spec (FrameworkSpec.name fs) wt tlim rlim rate bm em c e" by blast
  then show ?thesis by (auto simp: test_spec_def int_or_def)
qed


theorem zero_override_is_absent_witness:
  "make_spec (Inr [sanic_app]) [''sanic''] (Str ''sync'') (Str ''dynamic-response'')
     None (Some 0) (Some 0) (Some 0) (Tuple [''rps'', ''latency'']) = Inr [zero_fs]
   \<and> zero_fs \<in> set [zero_fs]
   \<and> FrameworkSpec.tests zero_fs ! 0 \<in> set (FrameworkSpec.tests zero_fs)
   \<and> FrameworkSpec.tests zero_fs ! 2 \<in> set (FrameworkSpec.tests zero_fs)
   \<and> TestSpec.benchmark_mode (FrameworkSpec.tests zero_fs ! 0) = ''rps''
   \<and> TestSpec.time_limit (FrameworkSpec.tests zero_fs ! 0) = Some 15
   \<and> TestSpec.benchmark_mode (FrameworkSpec.tests zero_fs ! 2) = ''latency''
   \<and> TestSpec.request_limit (FrameworkSpec.tests zero_fs ! 2) = Some 1000
   \<and> TestSpec.rate_limit (FrameworkSpec.tests zero_fs ! 2) = Some 20"
proof -
  have m: "zero_fs \<in> set [zero_fs]" by simp
  have t0: "FrameworkSpec.tests zero_fs ! 0 \<in> set (FrameworkSpec.tests zero_fs)" by simp
  have t2: "FrameworkSpec.tests zero_fs ! 2 \<in> set (FrameworkSpec.tests zero_fs)" by simp
  show ?thesis
    using zero_override_is_absent [OF zero_run m t0] zero_override_is_absent [OF zero_run m t2]
      zero_run
    by simp
qed

end
